theory Spec2Isabelle
  imports Main "HOL-Library.Word"
begin

section \<open>JavaScript values used by the console pages\<close>

text \<open>
  A JavaScript string is a sequence of UTF-16 code units. String literals of the
  source are ASCII; \<open>js\<close> embeds them.
\<close>

type_synonym jsstring = "16 word list"

definition js :: "string \<Rightarrow> jsstring" where
  "js s = map (\<lambda>c. of_nat (of_char c)) s"

text \<open>
  An object whose property values are strings (the form state and the request
  bodies built from it), with its properties in insertion order. Reading a
  missing property gives \<open>undefined\<close>, here \<open>None\<close>.
\<close>

type_synonym strobj = "(jsstring \<times> jsstring) list"

definition get_prop :: "strobj \<Rightarrow> string \<Rightarrow> jsstring option" where
  "get_prop obj k = map_of obj (js k)"

text \<open>
  \<open>FormData.append(name, value)\<close> stores the string conversion of a value that is
  not a file; \<open>undefined\<close> becomes the text "undefined".
\<close>

definition form_text :: "jsstring option \<Rightarrow> jsstring" where
  "form_text v = (case v of Some s \<Rightarrow> s | None \<Rightarrow> js ''undefined'')"

record js_file =
  file_name :: jsstring
  file_type :: jsstring
  file_bytes :: "8 word list"

datatype form_part = TextPart jsstring | FilePart js_file

datatype http_request =
    PostJson jsstring strobj
  | PostMultipart jsstring "(jsstring \<times> form_part) list"

section \<open>The Evaluate page\<close>

text \<open>
  The mutation function of \<open>evaluateMutation\<close>: which request is sent for the
  submitted \<open>data\<close>, given the \<open>selectedFile\<close> of the component.
\<close>

definition evaluate_mutationFn :: "js_file option \<Rightarrow> strobj \<Rightarrow> http_request" where
  "evaluate_mutationFn sel data =
     (case sel of
        Some f \<Rightarrow>
          PostMultipart (js ''/api/v1/evaluate/with-image'')
            [(js ''text'', TextPart (form_text (get_prop data ''input''))),
             (js ''client_id'', TextPart (form_text (get_prop data ''client_id''))),
             (js ''user'', TextPart (form_text (get_prop data ''user''))),
             (js ''input_type'', TextPart (js ''text_with_image'')),
             (js ''image'', FilePart f)]
      | None \<Rightarrow> PostJson (js ''/api/v1/evaluate/'') data)"

section \<open>The seed of the policy pack table\<close>

text \<open>
  A row of \<open>policy_packs\<close>, with the columns that the seed insert of \<open>init.sql\<close>
  writes. The columns the statement leaves to the table's defaults are not
  modelled: the table definition is not part of the script.
\<close>

record policy_pack =
  pack_name :: string
  pack_version :: string
  pack_description :: string
  is_active :: bool

type_synonym policy_packs = "policy_pack list"

text \<open>
  \<open>INSERT INTO policy_packs ... VALUES (row) ON CONFLICT (version) DO NOTHING\<close>,
  executed on an existing table whose \<open>version\<close> column is unique (the conflict
  target needs that constraint): the row is added unless a row with its version
  is there already, and no other row is touched.
\<close>

definition insert_on_conflict_version_do_nothing :: "policy_pack \<Rightarrow> policy_packs \<Rightarrow> policy_packs" where
  "insert_on_conflict_version_do_nothing row table =
     (if pack_version row \<in> set (map pack_version table) then table else table @ [row])"

definition seed_policy_pack :: policy_pack where
  "seed_policy_pack =
     \<lparr>pack_name = ''EU AI Act Compliance Pack'',
      pack_version = ''pack-2025-01-01-v1'',
      pack_description = ''Default policy pack for EU AI Act compliance'',
      is_active = True\<rparr>"

text \<open>
  The statement of \<open>init.sql\<close>, lines 18 to 21, on its own. The rest of the script
  is not modelled: its line 7 is prose without a comment marker, so a client that
  stops at the first error never reaches this statement, and one that goes on
  executes it as it stands here.
\<close>

definition seed_policy_pack_insert :: "policy_packs \<Rightarrow> policy_packs" where
  "seed_policy_pack_insert table = insert_on_conflict_version_do_nothing seed_policy_pack table"

text \<open>The rows with a given version, and the rows marked active.\<close>

definition select_by_version :: "policy_packs \<Rightarrow> string \<Rightarrow> policy_packs" where
  "select_by_version table v = filter (\<lambda>p. pack_version p = v) table"

definition active_packs :: "policy_packs \<Rightarrow> policy_packs" where
  "active_packs table = filter is_active table"

text \<open>
  Two tables to run the statement on: one holds an older pack that is still
  active, the other the same pack after it was retired.
\<close>

definition earlier_active_pack :: policy_pack where
  "earlier_active_pack =
     \<lparr>pack_name = ''EU AI Act Compliance Pack'',
      pack_version = ''pack-2024-06-01-v3'',
      pack_description = ''Earlier policy pack'',
      is_active = True\<rparr>"

definition retired_policy_pack :: policy_pack where
  "retired_policy_pack = earlier_active_pack\<lparr>is_active := False\<rparr>"

section \<open>The Rule Evaluator\<close>

text \<open>
  Modelled from the spec: the risk tiers, the actions and the policy tag of its
  data model. The engine behind the console (registry, detector, evaluator,
  composer, audit trail) is missing from the sources; this section follows the
  specification's description of the evaluator.
\<close>

datatype risk_tier = Unacceptable | High | Limited | Minimal

datatype action = Block | Flag | Allow

record PolicyTag =
  tag_id :: nat
  tag_name :: string
  tag_description :: string
  tag_risk_tier :: risk_tier
  tag_action :: action
  tag_pack :: string

text \<open>
  Modelled from the spec: the evaluator's fixed tier precedence
  \<open>unacceptable > high > limited > minimal\<close> (the evaluator is missing from the sources).
\<close>

fun tier_precedence :: "risk_tier \<Rightarrow> nat" where
  "tier_precedence Unacceptable = 3"
| "tier_precedence High = 2"
| "tier_precedence Limited = 1"
| "tier_precedence Minimal = 0"

text \<open>
  Modelled from the spec: the evaluator's action precedence, \<open>block\<close> dominates \<open>flag\<close>
  dominates \<open>allow\<close>.
\<close>

fun action_precedence :: "action \<Rightarrow> nat" where
  "action_precedence Block = 2"
| "action_precedence Flag = 1"
| "action_precedence Allow = 0"

text \<open>Modelled from the spec: the evaluator's choice of the higher of two tiers.\<close>

definition higher_tier :: "risk_tier \<Rightarrow> risk_tier \<Rightarrow> risk_tier" where
  "higher_tier a b = (if tier_precedence b \<le> tier_precedence a then a else b)"

text \<open>Modelled from the spec: the evaluator's choice of the dominant of two actions.\<close>

definition dominant_action :: "action \<Rightarrow> action \<Rightarrow> action" where
  "dominant_action a b = (if action_precedence b \<le> action_precedence a then a else b)"

text \<open>
  Modelled from the spec: the evaluator's resolution of a candidate name to its tag
  within the active pack; an unknown name resolves to nothing.
\<close>

definition resolve_tag :: "PolicyTag list \<Rightarrow> string \<Rightarrow> PolicyTag option" where
  "resolve_tag pack_tags name = find (\<lambda>t. tag_name t = name) pack_tags"

text \<open>
  Modelled from the spec: the evaluator's aggregate action, resolved by action
  precedence over the action of each triggered tag; \<open>allow\<close> when none is triggered.
\<close>

definition aggregate_action :: "PolicyTag list \<Rightarrow> action" where
  "aggregate_action tags = foldr (\<lambda>t. dominant_action (tag_action t)) tags Allow"

text \<open>
  Modelled from the spec: the evaluator's \<open>evaluate\<close>. The candidate names (a set)
  are resolved in the active pack, unknown names dropped; the triggered tags are
  ordered by tier precedence; the aggregate tier is the highest among them,
  \<open>minimal\<close> if there is none; the aggregate action is the dominant action.
\<close>

definition evaluate :: "string list \<Rightarrow> PolicyTag list \<Rightarrow> PolicyTag list \<times> risk_tier \<times> action" where
  "evaluate candidateTagNames pack_tags =
     (let triggered = List.map_filter (resolve_tag pack_tags) (remdups candidateTagNames);
          ordered = sort_key (\<lambda>t. 3 - tier_precedence (tag_risk_tier t)) triggered
      in (ordered,
          foldr (\<lambda>t. higher_tier (tag_risk_tier t)) ordered Minimal,
          aggregate_action ordered))"

text \<open>A pack in which the tier and the action of a tag pull in different directions.\<close>

definition crossed_pack :: "PolicyTag list" where
  "crossed_pack =
     [\<lparr>tag_id = 1, tag_name = ''LimitedButBlocked'', tag_description = ''limited tier, blocked'',
       tag_risk_tier = Limited, tag_action = Block, tag_pack = ''pack-2025-01-01-v1''\<rparr>,
      \<lparr>tag_id = 2, tag_name = ''UnacceptableButFlagged'', tag_description = ''top tier, flagged'',
       tag_risk_tier = Unacceptable, tag_action = Flag, tag_pack = ''pack-2025-01-01-v1''\<rparr>,
      \<lparr>tag_id = 3, tag_name = ''HighButAllowed'', tag_description = ''high tier, allowed'',
       tag_risk_tier = High, tag_action = Allow, tag_pack = ''pack-2025-01-01-v1''\<rparr>]"

section \<open>Properties\<close>

subsection \<open>The Evaluate page\<close>

lemma code_unit_of_char_inj: "inj (\<lambda>c::char. (of_nat (of_char c) :: 16 word))"
proof (rule injI)
  fix c d :: char
  assume eq: "(of_nat (of_char c) :: 16 word) = of_nat (of_char d)"
  have bc: "(of_char c :: nat) < 2 ^ 16"
    using nat_of_char_less_256 [of c] by (simp del: nat_of_char_less_256)
  have bd: "(of_char d :: nat) < 2 ^ 16"
    using nat_of_char_less_256 [of d] by (simp del: nat_of_char_less_256)
  from eq have "unat (of_nat (of_char c) :: 16 word) = unat (of_nat (of_char d) :: 16 word)"
    by simp
  with bc bd have "(of_char c :: nat) = of_char d"
    by (simp add: unat_of_nat take_bit_nat_eq_self)
  then show "c = d" by simp
qed

lemma js_eq_iff [simp]: "js a = js b \<longleftrightarrow> a = b"
  unfolding js_def using code_unit_of_char_inj by simp

text \<open>
  C10. In the submission logic of the Evaluate page the endpoint depends only on
  whether an image file is selected. With a file, the request is multipart form
  data to the with-image endpoint and its \<open>input_type\<close> part is
  \<open>text_with_image\<close>, whatever \<open>input_type\<close> the submitted form data holds; with no
  file, the request is a JSON body to the text endpoint, and the body is the
  submitted form data unchanged.
\<close>

theorem evaluate_endpoint_by_selected_file:
  "(\<forall>f. \<exists>parts.
       evaluate_mutationFn (Some f) data = PostMultipart (js ''/api/v1/evaluate/with-image'') parts \<and>
       map fst parts = [js ''text'', js ''client_id'', js ''user'', js ''input_type'', js ''image''] \<and>
       map_of parts (js ''input_type'') = Some (TextPart (js ''text_with_image'')) \<and>
       map_of parts (js ''image'') = Some (FilePart f)) \<and>
   evaluate_mutationFn None data = PostJson (js ''/api/v1/evaluate/'') data"
  by (simp add: evaluate_mutationFn_def)

subsection \<open>The policy pack table\<close>

lemma insert_keeps_versions_distinct:
  "distinct (map pack_version (table :: policy_packs)) \<Longrightarrow>
   distinct (map pack_version (insert_on_conflict_version_do_nothing row table))"
  by (simp add: insert_on_conflict_version_do_nothing_def)

lemma select_by_version_unique:
  "distinct (map pack_version (table :: policy_packs)) \<Longrightarrow> p \<in> set table \<Longrightarrow>
   select_by_version table (pack_version p) = [p]"
proof (induction table)
  case Nil
  then show ?case by simp
next
  case (Cons q table)
  show ?case
  proof (cases "p = q")
    case True
    with Cons.prems have "\<forall>r\<in>set table. pack_version r \<noteq> pack_version q"
      by (auto simp: image_iff)
    then have "filter (\<lambda>r. pack_version r = pack_version q) table = []"
      by (simp add: filter_empty_conv)
    with True show ?thesis by (simp add: select_by_version_def)
  next
    case False
    with Cons.prems have mem: "p \<in> set table" and d: "distinct (map pack_version table)"
      by auto
    from Cons.prems mem have "pack_version q \<noteq> pack_version p"
      by (auto simp: image_iff)
    with Cons.IH [OF d mem] show ?thesis
      by (simp add: select_by_version_def)
  qed
qed

lemma insert_keeps_rows:
  "set table \<subseteq> set (insert_on_conflict_version_do_nothing row table)"
  by (auto simp: insert_on_conflict_version_do_nothing_def)

lemma seed_insert_adds_seed:
  assumes "pack_version seed_policy_pack \<notin> set (map pack_version table)"
  shows "seed_policy_pack_insert table = table @ [seed_policy_pack]"
  using assms by (simp add: seed_policy_pack_insert_def insert_on_conflict_version_do_nothing_def)

lemma seed_insert_conflict:
  assumes "pack_version seed_policy_pack \<in> set (map pack_version table)"
  shows "seed_policy_pack_insert table = table"
  using assms by (simp add: seed_policy_pack_insert_def insert_on_conflict_version_do_nothing_def)

lemma seed_insert_one_active_iff:
  "length (active_packs (seed_policy_pack_insert table)) \<le> 1 \<longleftrightarrow>
   length (active_packs table) \<le> 1 \<and>
   (pack_version seed_policy_pack \<in> set (map pack_version table) \<or> active_packs table = [])"
proof (cases "pack_version seed_policy_pack \<in> set (map pack_version table)")
  case True
  then show ?thesis by (simp add: seed_insert_conflict)
next
  case False
  have "is_active seed_policy_pack" by (simp add: seed_policy_pack_def)
  then have "length (active_packs (table @ [seed_policy_pack])) = Suc (length (active_packs table))"
    by (simp add: active_packs_def)
  with False show ?thesis
    by (auto simp: seed_insert_adds_seed)
qed

text \<open>
  C9, as the seed insert has it. The statement keeps the versions of the table
  pairwise different and leaves every pack that was in the table addressable by
  its version, unchanged; when no pack has the seed's version it adds the seed
  pack, which is then addressable too. It marks the seed pack active and
  deactivates nothing: at most one pack is active afterwards exactly when that
  held before and either the seed's version was present already or no pack was
  active.
\<close>

theorem seed_insert_policy_packs:
  "(\<forall>table :: policy_packs. distinct (map pack_version table) \<longrightarrow>
        distinct (map pack_version (seed_policy_pack_insert table))) \<and>
   (\<forall>table :: policy_packs. \<forall>p\<in>set table. distinct (map pack_version table) \<longrightarrow>
        select_by_version (seed_policy_pack_insert table) (pack_version p) = [p]) \<and>
   (\<forall>table :: policy_packs.
        distinct (map pack_version table) \<and>
        pack_version seed_policy_pack \<notin> set (map pack_version table) \<longrightarrow>
        select_by_version (seed_policy_pack_insert table) (pack_version seed_policy_pack) =
          [seed_policy_pack]) \<and>
   (\<forall>table :: policy_packs.
        length (active_packs (seed_policy_pack_insert table)) \<le> 1 \<longleftrightarrow>
        length (active_packs table) \<le> 1 \<and>
        (pack_version seed_policy_pack \<in> set (map pack_version table) \<or> active_packs table = []))"
proof (intro conjI allI impI ballI)
  fix table :: policy_packs
  assume "distinct (map pack_version table)"
  then show "distinct (map pack_version (seed_policy_pack_insert table))"
    unfolding seed_policy_pack_insert_def by (rule insert_keeps_versions_distinct)
next
  fix table :: policy_packs and p
  assume p: "p \<in> set table" and d: "distinct (map pack_version table)"
  from d have "distinct (map pack_version (seed_policy_pack_insert table))"
    unfolding seed_policy_pack_insert_def by (rule insert_keeps_versions_distinct)
  moreover from p have "p \<in> set (seed_policy_pack_insert table)"
    unfolding seed_policy_pack_insert_def using insert_keeps_rows by blast
  ultimately show "select_by_version (seed_policy_pack_insert table) (pack_version p) = [p]"
    by (rule select_by_version_unique)
next
  fix table :: policy_packs
  assume h: "distinct (map pack_version table) \<and>
        pack_version seed_policy_pack \<notin> set (map pack_version table)"
  then have new: "seed_policy_pack_insert table = table @ [seed_policy_pack]"
    by (simp add: seed_insert_adds_seed)
  from h have "distinct (map pack_version (table @ [seed_policy_pack]))"
    by simp
  moreover have "seed_policy_pack \<in> set (table @ [seed_policy_pack])"
    by simp
  ultimately have "select_by_version (table @ [seed_policy_pack]) (pack_version seed_policy_pack) =
      [seed_policy_pack]"
    by (rule select_by_version_unique)
  with new show "select_by_version (seed_policy_pack_insert table) (pack_version seed_policy_pack) =
          [seed_policy_pack]"
    by simp
next
  fix table :: policy_packs
  show "length (active_packs (seed_policy_pack_insert table)) \<le> 1 \<longleftrightarrow>
        length (active_packs table) \<le> 1 \<and>
        (pack_version seed_policy_pack \<in> set (map pack_version table) \<or> active_packs table = [])"
    by (rule seed_insert_one_active_iff)
qed

theorem seed_insert_policy_packs_witness:
  "distinct (map pack_version (seed_policy_pack_insert [retired_policy_pack])) \<and>
   select_by_version (seed_policy_pack_insert [retired_policy_pack]) ''pack-2024-06-01-v3'' =
     [retired_policy_pack] \<and>
   select_by_version (seed_policy_pack_insert [retired_policy_pack]) ''pack-2025-01-01-v1'' =
     [seed_policy_pack] \<and>
   length (active_packs (seed_policy_pack_insert [retired_policy_pack])) \<le> 1"
proof -
  note c = seed_insert_policy_packs
  have d: "distinct (map pack_version [retired_policy_pack])"
    by simp
  have m: "retired_policy_pack \<in> set [retired_policy_pack]"
    by simp
  have n: "distinct (map pack_version [retired_policy_pack]) \<and>
      pack_version seed_policy_pack \<notin> set (map pack_version [retired_policy_pack])"
    by (simp add: retired_policy_pack_def earlier_active_pack_def seed_policy_pack_def)
  have a: "length (active_packs [retired_policy_pack]) \<le> 1 \<and>
      (pack_version seed_policy_pack \<in> set (map pack_version [retired_policy_pack]) \<or>
       active_packs [retired_policy_pack] = [])"
    by (simp add: active_packs_def retired_policy_pack_def)
  from c d have p1: "distinct (map pack_version (seed_policy_pack_insert [retired_policy_pack]))"
    by blast
  from c d m have "select_by_version (seed_policy_pack_insert [retired_policy_pack])
      (pack_version retired_policy_pack) = [retired_policy_pack]"
    by blast
  then have p2: "select_by_version (seed_policy_pack_insert [retired_policy_pack]) ''pack-2024-06-01-v3'' =
      [retired_policy_pack]"
    by (simp add: retired_policy_pack_def earlier_active_pack_def)
  from c n have "select_by_version (seed_policy_pack_insert [retired_policy_pack])
      (pack_version seed_policy_pack) = [seed_policy_pack]"
    by blast
  then have p3: "select_by_version (seed_policy_pack_insert [retired_policy_pack]) ''pack-2025-01-01-v1'' =
      [seed_policy_pack]"
    by (simp add: seed_policy_pack_def)
  from c a have p4: "length (active_packs (seed_policy_pack_insert [retired_policy_pack])) \<le> 1"
    by blast
  from p1 p2 p3 p4 show ?thesis by (intro conjI)
qed

text \<open>
  A table that holds one pack, active, of another version has at most one active
  pack and pairwise different versions; after the seed insert two packs are
  active.
\<close>

theorem seed_insert_second_active_pack:
  "length (active_packs [earlier_active_pack]) \<le> 1 \<and>
   distinct (map pack_version [earlier_active_pack]) \<and>
   active_packs (seed_policy_pack_insert [earlier_active_pack]) =
     [earlier_active_pack, seed_policy_pack] \<and>
   \<not> length (active_packs (seed_policy_pack_insert [earlier_active_pack])) \<le> 1"
  by (simp add: seed_policy_pack_insert_def insert_on_conflict_version_do_nothing_def
      active_packs_def earlier_active_pack_def seed_policy_pack_def)

subsection \<open>The Rule Evaluator\<close>

lemma dominant_action_Block_iff: "dominant_action a b = Block \<longleftrightarrow> a = Block \<or> b = Block"
  by (cases a; cases b) (simp_all add: dominant_action_def)

lemma dominant_action_Allow_iff: "dominant_action a b = Allow \<longleftrightarrow> a = Allow \<and> b = Allow"
  by (cases a; cases b) (simp_all add: dominant_action_def)

lemma aggregate_action_Nil: "aggregate_action [] = Allow"
  by (simp add: aggregate_action_def)

lemma aggregate_action_Cons:
  "aggregate_action (t # tags) = dominant_action (tag_action t) (aggregate_action tags)"
  by (simp add: aggregate_action_def)

lemma aggregate_action_Block_iff:
  "aggregate_action tags = Block \<longleftrightarrow> (\<exists>t\<in>set tags. tag_action t = Block)"
  by (induction tags)
     (simp_all add: aggregate_action_Nil aggregate_action_Cons dominant_action_Block_iff)

lemma aggregate_action_Allow_iff:
  "aggregate_action tags = Allow \<longleftrightarrow> (\<forall>t\<in>set tags. tag_action t = Allow)"
  by (induction tags)
     (simp_all add: aggregate_action_Nil aggregate_action_Cons dominant_action_Allow_iff)

lemma evaluate_action: "snd (snd (evaluate names pack_tags)) = aggregate_action (fst (evaluate names pack_tags))"
  by (simp add: evaluate_def Let_def)

lemma set_map_filter_resolved:
  "set (List.map_filter f xs) = {y. \<exists>x\<in>set xs. f x = Some y}"
  by (induction xs) (auto split: option.splits)

lemma evaluate_triggered:
  "set (fst (evaluate names pack_tags)) = {t. \<exists>n\<in>set names. resolve_tag pack_tags n = Some t}"
  by (simp add: evaluate_def Let_def set_map_filter_resolved)

text \<open>
  C2. The triggered tags of \<open>evaluate\<close> are the tags the candidate names resolve to
  in the pack. If one of them has the action \<open>block\<close>, the aggregate action is
  \<open>block\<close>, whatever the tiers and actions of the others; if one of them has the
  action \<open>flag\<close> and none has \<open>block\<close>, the aggregate action is \<open>flag\<close>.
\<close>

theorem action_dominance:
  "set (fst (evaluate names pack_tags)) = {t. \<exists>n\<in>set names. resolve_tag pack_tags n = Some t} \<and>
   ((\<exists>t\<in>set (fst (evaluate names pack_tags)). tag_action t = Block) \<longrightarrow>
      snd (snd (evaluate names pack_tags)) = Block) \<and>
   ((\<exists>t\<in>set (fst (evaluate names pack_tags)). tag_action t = Flag) \<and>
    (\<forall>t\<in>set (fst (evaluate names pack_tags)). tag_action t \<noteq> Block) \<longrightarrow>
      snd (snd (evaluate names pack_tags)) = Flag)"
proof (intro conjI impI)
  show "set (fst (evaluate names pack_tags)) = {t. \<exists>n\<in>set names. resolve_tag pack_tags n = Some t}"
    by (rule evaluate_triggered)
next
  assume "\<exists>t\<in>set (fst (evaluate names pack_tags)). tag_action t = Block"
  then show "snd (snd (evaluate names pack_tags)) = Block"
    unfolding evaluate_action by (simp add: aggregate_action_Block_iff)
next
  let ?tags = "fst (evaluate names pack_tags)"
  assume h: "(\<exists>t\<in>set ?tags. tag_action t = Flag) \<and> (\<forall>t\<in>set ?tags. tag_action t \<noteq> Block)"
  then have nb: "aggregate_action ?tags \<noteq> Block"
    by (simp add: aggregate_action_Block_iff)
  from h obtain t where "t \<in> set ?tags" and "tag_action t = Flag"
    by blast
  then have "\<exists>t\<in>set ?tags. tag_action t \<noteq> Allow"
    by force
  then have "aggregate_action ?tags \<noteq> Allow"
    by (simp add: aggregate_action_Allow_iff)
  with nb show "snd (snd (evaluate names pack_tags)) = Flag"
    unfolding evaluate_action by (cases "aggregate_action ?tags") simp_all
qed

theorem action_dominance_witness:
  "snd (snd (evaluate [''HighButAllowed'', ''LimitedButBlocked'', ''Retired'', ''UnacceptableButFlagged'']
     crossed_pack)) = Block \<and>
   snd (snd (evaluate [''HighButAllowed'', ''UnacceptableButFlagged''] crossed_pack)) = Flag"
proof -
  let ?all = "evaluate [''HighButAllowed'', ''LimitedButBlocked'', ''Retired'', ''UnacceptableButFlagged'']
     crossed_pack"
  let ?two = "evaluate [''HighButAllowed'', ''UnacceptableButFlagged''] crossed_pack"
  have t1: "fst ?all = [crossed_pack ! 1, crossed_pack ! 2, crossed_pack ! 0]"
    by code_simp
  have t2: "fst ?two = [crossed_pack ! 1, crossed_pack ! 2]"
    by code_simp
  have b: "\<exists>t\<in>set (fst ?all). tag_action t = Block"
    unfolding t1 by (simp add: crossed_pack_def)
  have f: "(\<exists>t\<in>set (fst ?two). tag_action t = Flag) \<and> (\<forall>t\<in>set (fst ?two). tag_action t \<noteq> Block)"
    unfolding t2 by (simp add: crossed_pack_def)
  from action_dominance [of "[''HighButAllowed'', ''LimitedButBlocked'', ''Retired'', ''UnacceptableButFlagged'']" crossed_pack] b
  have p1: "snd (snd ?all) = Block"
    by blast
  from action_dominance [of "[''HighButAllowed'', ''UnacceptableButFlagged'']" crossed_pack] f
  have p2: "snd (snd ?two) = Flag"
    by blast
  from p1 p2 show ?thesis by (intro conjI)
qed

end
